theory Spec2Isabelle
  imports Main
begin

section \<open>The IRC server event engine (irc/server.go)\<close>

text \<open>
  A shallow embedding of the server's command handlers. Go pointers (\<open>*Client\<close>,
  \<open>*Channel\<close>) are identifiers into two stores kept in the server state, so that two
  references to one object stay aliased. Every handler takes the server state and returns
  the updated one; replies enqueued for a client are appended to one ordered log.
  Strings are lists of characters; case folding is the ASCII one (nicknames and channel
  names are ASCII by their grammar).
\<close>

subsection \<open>Data model\<close>

type_synonym cid = nat
type_synonym chid = nat

text \<open>\<open>UserMode\<close>, \<open>ChannelMode\<close> and \<open>ModeOp\<close> are runes in the source: the named
  constants are the ones the handlers switch on, every other rune is \<open>Other...\<close>.\<close>

datatype UserMode =
  Away | Invisible | LocalOperator | Operator | ServerNotice | WallOps | OtherUserMode char

datatype ChannelMode = Private | OtherChannelMode char

datatype ModeOp = Add | Remove | OtherOp char

record ModeChange =
  mode :: UserMode
  op :: ModeOp

datatype Phase = Authorization | Registration | Normal | Terminated

record Client =
  nick :: string
  username :: string
  realname :: string
  hostname :: string
  flags :: "UserMode set"
  awayMessage :: string
  channels :: "chid list"
  phase :: Phase
  atime :: nat
  ttime :: nat

record Channel =
  chname :: string
  chflags :: "ChannelMode set"
  members :: "cid list"
  persistent :: bool

text \<open>The errors of the nickname index (\<open>ErrNickMissing\<close>, \<open>ErrNicknameInUse\<close>,
  \<open>ErrNicknameMismatch\<close>); \<open>None\<close> is Go's \<open>nil\<close> error.\<close>

datatype error = ErrNickMissing | ErrNicknameInUse | ErrNicknameMismatch

text \<open>The commands, one variant per verb, with the fields server.go reads. The
  originating client (\<open>cmd.Client()\<close>) is passed beside the command. \<open>err\<close> of PASS
  and OPER is the outcome of the password comparison made when the command was
  read (\<open>None\<close> is \<open>nil\<close>: the password matched); \<open>hash\<close> of OPER is \<open>None\<close> when no
  operator of that name is configured. The maps of JOIN and KICK are association
  lists in the order the \<open>range\<close> loop visits them.\<close>

datatype Command =
    ProxyCommand string
  | CapCommand
  | PassCommand "string option"
  | NickCommand string
  | RFC1459UserCommand string string
  | RFC2812UserCommand string string "UserMode list"
  | QuitCommand string
  | PingCommand
  | PongCommand
  | JoinCommand bool "(string \<times> string) list"
  | PartCommand "string list" string
  | TopicCommand string bool string
  | PrivMsgCommand string string
  | ModeCommand string "ModeChange list"
  | ChannelModeCommand string
  | WhoisCommand "string list"
  | WhoCommand string
  | OperCommand "string option" "string option"
  | AwayCommand bool string
  | IsOnCommand "string list"
  | MOTDCommand
  | NoticeCommand string string
  | KickCommand "(string \<times> string) list" string
  | ListCommand string "string list"
  | NamesCommand "string list"
  | DebugCommand string
  | VersionCommand string
  | InviteCommand string string
  | TimeCommand string
  | KillCommand string string
  | WhoWasCommand "string list"

text \<open>What a handler enqueues for a client: the numeric replies and relayed messages
  the handlers of server.go send. The formatting of a line belongs to the reply
  helpers, which are not part of this file; a reply is recorded by its kind and
  arguments.\<close>

datatype Reply =
    ErrNoSuchChannel string
  | ErrNoSuchNick string
  | ErrNoSuchServer string
  | ErrUsersDontMatch
  | ErrPasswdMismatch
  | ErrNoNicknameGiven
  | ErrErroneusNickname string
  | ErrNickNameInUse string
  | ErrUnknownCommand Command
  | ErrAlreadyRegistered
  | RplMode cid cid "ModeChange list"
  | RplList chid
  | RplListEnd
  | RplNamReply chid
  | RplEndOfNames chid
  | RplPong
  | RplYoureOper
  | RplUModeIs cid
  | RplNick cid string string
  | RplPart cid chid string
  | RplQuit cid string

record Server =
  server_channels :: "(string \<times> chid) list"
  byNick :: "string \<rightharpoonup> cid"
  db :: "(string \<times> string) list"
  client_at :: "cid \<Rightarrow> Client"
  channel_at :: "chid \<Rightarrow> Channel"
  outq :: "(cid \<times> Reply) list"

subsection \<open>Strings\<close>

definition lower_char :: "char \<Rightarrow> char" where
  "lower_char c =
     (case map_of (zip ''ABCDEFGHIJKLMNOPQRSTUVWXYZ'' ''abcdefghijklmnopqrstuvwxyz'') c of
        Some l \<Rightarrow> l
      | None \<Rightarrow> c)"

text \<open>\<open>strings.ToLower\<close>, on ASCII.\<close>

definition ToLower :: "string \<Rightarrow> string" where
  "ToLower s = map lower_char s"

subsection \<open>Client helpers\<close>

text \<open>Modelled from the spec: \<open>Client.HasNick\<close>, \<open>Client.Nick\<close> and \<open>Client.UserHost\<close>
  live in client.go, which is not among the sources. The spec's NicknameIndex says
  a client "has no nick" when the nickname is missing, and its glossary gives the
  userhost as the composite identity \<open>nick!user@host\<close>.\<close>

definition HasNick :: "Client \<Rightarrow> bool" where
  "HasNick c = (nick c \<noteq> [])"

definition Nick :: "Client \<Rightarrow> string" where
  "Nick c = nick c"

definition UserHost :: "Client \<Rightarrow> string" where
  "UserHost c = Nick c @ ''!'' @ username c @ ''@'' @ hostname c"

text \<open>Modelled from the spec: \<open>Client.Reply\<close> (client.go) appends a reply to the
  client's outbound queue, which the writer drains in order.\<close>

definition Reply :: "Server \<Rightarrow> cid \<Rightarrow> Reply \<Rightarrow> Server" where
  "Reply s c r = s\<lparr>outq := outq s @ [(c, r)]\<rparr>"

subsection \<open>The nickname index: ClientLookupSet and ClientDB\<close>

text \<open>\<open>ClientDB\<close> is the table \<open>client (nickname UNIQUE, userhost)\<close>: a list of rows.
  \<open>INSERT\<close> fails (the error is logged, nothing changes) when a row with the same
  nickname exists; \<open>DELETE ... WHERE nickname = ?\<close> drops the rows of that nickname.\<close>

definition ClientDB_Add :: "Server \<Rightarrow> cid \<Rightarrow> Server" where
  "ClientDB_Add s c =
     (let cl = client_at s c in
      if Nick cl \<in> fst ` set (db s) then s
      else s\<lparr>db := db s @ [(Nick cl, UserHost cl)]\<rparr>)"

definition ClientDB_Remove :: "Server \<Rightarrow> cid \<Rightarrow> Server" where
  "ClientDB_Remove s c =
     s\<lparr>db := filter (\<lambda>row. fst row \<noteq> Nick (client_at s c)) (db s)\<rparr>"

definition ClientLookupSet_Get :: "Server \<Rightarrow> string \<Rightarrow> cid option" where
  "ClientLookupSet_Get s n = byNick s (ToLower n)"

definition ClientLookupSet_Add :: "Server \<Rightarrow> cid \<Rightarrow> error option \<times> Server" where
  "ClientLookupSet_Add s c =
     (if \<not> HasNick (client_at s c) then (Some ErrNickMissing, s)
      else if ClientLookupSet_Get s (nick (client_at s c)) \<noteq> None then (Some ErrNicknameInUse, s)
      else (None,
        ClientDB_Add (s\<lparr>byNick := (byNick s)(ToLower (nick (client_at s c)) \<mapsto> c)\<rparr>) c))"

definition ClientLookupSet_Remove :: "Server \<Rightarrow> cid \<Rightarrow> error option \<times> Server" where
  "ClientLookupSet_Remove s c =
     (if \<not> HasNick (client_at s c) then (Some ErrNickMissing, s)
      else if ClientLookupSet_Get s (nick (client_at s c)) \<noteq> Some c then (Some ErrNicknameMismatch, s)
      else (None,
        ClientDB_Remove (s\<lparr>byNick := (byNick s)(ToLower (nick (client_at s c)) := None)\<rparr>) c))"

subsection \<open>Helpers declared in the other files\<close>

text \<open>Modelled from the spec: \<open>ChannelNameMap.Get\<close> is declared outside server.go. The
  spec's ChannelTable maps the lowercase name to the channel, case-insensitively.\<close>

definition ChannelNameMap_Get :: "Server \<Rightarrow> string \<Rightarrow> chid option" where
  "ChannelNameMap_Get s n = map_of (server_channels s) (ToLower n)"

text \<open>Modelled from the spec: \<open>IsNickname\<close> is declared outside server.go. The spec's
  nickname grammar: the first character is a letter or one of \<open>[ ] \ ` _ ^ { | }\<close>, the
  following ones may also be digits and \<open>-\<close>, and the length is at most 32 (the
  default policy).\<close>

definition nick_first :: "char \<Rightarrow> bool" where
  "nick_first c =
     (c \<in> set ''ABCDEFGHIJKLMNOPQRSTUVWXYZabcdefghijklmnopqrstuvwxyz'' \<or>
      c \<in> set [CHR ''['', CHR '']'', CHR 0x5C, CHR 0x60, CHR ''_'', CHR ''^'', CHR ''{'',
        CHR ''|'', CHR ''}''])"

definition nick_rest :: "char \<Rightarrow> bool" where
  "nick_rest c = (nick_first c \<or> c \<in> set ''0123456789-'')"

definition IsNickname :: "string \<Rightarrow> bool" where
  "IsNickname n =
     (case n of [] \<Rightarrow> False
      | c # cs \<Rightarrow> nick_first c \<and> list_all nick_rest cs \<and> length n \<le> 32)"

text \<open>Modelled from the spec: \<open>IsChannel\<close> is declared outside server.go. The spec's
  channel name: the first character is \<open>#\<close> or \<open>&\<close>, the length is at most 50, and no
  character is a space, a comma or a control character.\<close>

definition IsChannel :: "string \<Rightarrow> bool" where
  "IsChannel n =
     (case n of [] \<Rightarrow> False
      | c # cs \<Rightarrow> (c = CHR ''#'' \<or> c = CHR ''&'') \<and> length n \<le> 50 \<and>
          list_all (\<lambda>x. x \<noteq> CHR '' '' \<and> x \<noteq> CHR '','' \<and> 32 \<le> (of_char x :: nat) \<and>
            (of_char x :: nat) \<noteq> 127) n)"

text \<open>The same reply for each client of a list, in the list's order.\<close>

definition Broadcast :: "Server \<Rightarrow> cid list \<Rightarrow> Reply \<Rightarrow> Server" where
  "Broadcast s cs r = fold (\<lambda>c s'. Reply s' c r) cs s"

text \<open>Modelled from the spec: \<open>Client.Friends\<close> (client.go) is the set of clients that
  share at least one channel with the client.\<close>

definition Friends :: "Server \<Rightarrow> cid \<Rightarrow> cid list" where
  "Friends s c =
     remdups (concat (map (\<lambda>ch. members (channel_at s ch)) (channels (client_at s c))))"

text \<open>Modelled from the spec: \<open>Client.Active\<close> and \<open>Client.Touch\<close> (client.go) bump the
  client's last-active and last-touched timestamps; \<open>now\<close> is the clock's reading.\<close>

definition Client_Active :: "nat \<Rightarrow> Server \<Rightarrow> cid \<Rightarrow> Server" where
  "Client_Active now s c = s\<lparr>client_at := (client_at s)(c := (client_at s c)\<lparr>atime := now\<rparr>)\<rparr>"

definition Client_Touch :: "nat \<Rightarrow> Server \<Rightarrow> cid \<Rightarrow> Server" where
  "Client_Touch now s c = s\<lparr>client_at := (client_at s)(c := (client_at s c)\<lparr>ttime := now\<rparr>)\<rparr>"

text \<open>Modelled from the spec: the channel operations live in channel.go. The spec's
  Part "removes bidirectionally; broadcasts PART; if empty and not persistent, channel
  is deleted from ChannelTable". \<open>Channel_Remove\<close> is the removal (both directions, and
  the deletion of a channel left empty), which the quit path uses too. The steps are
  taken in the order of the sentence, so PART goes to the members that remain.\<close>

definition Channel_Remove :: "Server \<Rightarrow> chid \<Rightarrow> cid \<Rightarrow> Server" where
  "Channel_Remove s ch c =
     (let s1 = s\<lparr>channel_at := (channel_at s)
                  (ch := (channel_at s ch)\<lparr>members := removeAll c (members (channel_at s ch))\<rparr>),
                client_at := (client_at s)
                  (c := (client_at s c)\<lparr>channels := removeAll ch (channels (client_at s c))\<rparr>)\<rparr>
      in if members (channel_at s1 ch) = [] \<and> \<not> persistent (channel_at s1 ch)
         then s1\<lparr>server_channels := filter (\<lambda>e. snd e \<noteq> ch) (server_channels s1)\<rparr>
         else s1)"

definition Channel_Part :: "Server \<Rightarrow> chid \<Rightarrow> cid \<Rightarrow> string \<Rightarrow> Server" where
  "Channel_Part s ch c reason =
     (let s1 = Channel_Remove s ch c
      in Broadcast s1 (members (channel_at s1 ch)) (RplPart c ch reason))"

text \<open>Modelled from the spec: \<open>Channel.Names\<close> (channel.go) sends the names of the
  channel to the client: RPL_NAMREPLY, then RPL_ENDOFNAMES.\<close>

definition Channel_Names :: "Server \<Rightarrow> chid \<Rightarrow> cid \<Rightarrow> Server" where
  "Channel_Names s ch c = Reply (Reply s c (RplNamReply ch)) c (RplEndOfNames ch)"

text \<open>Modelled from the spec: \<open>Client.Quit\<close> (client.go) is the unified quit path: the
  client is removed from every channel it is in, QUIT is broadcast to its friends (the
  other clients it shared a channel with when the path began), it is removed from the
  nickname index, and its phase becomes Terminated.\<close>

definition Client_Quit :: "Server \<Rightarrow> cid \<Rightarrow> string \<Rightarrow> Server" where
  "Client_Quit s c reason =
     (let friends = Friends s c;
          s1 = fold (\<lambda>ch s'. Channel_Remove s' ch c) (channels (client_at s c)) s;
          s2 = Broadcast s1 (removeAll c friends) (RplQuit c reason);
          s3 = snd (ClientLookupSet_Remove s2 c)
      in s3\<lparr>client_at := (client_at s3)(c := (client_at s3 c)\<lparr>phase := Terminated\<rparr>)\<rparr>)"

text \<open>Modelled from the spec: \<open>Client.ChangeNickname\<close> (client.go) "updates the index
  atomically and broadcasts a NICK message to every client in Friends \<open>\<union>\<close> {self}".\<close>

definition Client_ChangeNickname :: "Server \<Rightarrow> cid \<Rightarrow> string \<Rightarrow> Server" where
  "Client_ChangeNickname s c new =
     (let old = nick (client_at s c);
          s1 = snd (ClientLookupSet_Remove s c);
          s2 = s1\<lparr>client_at := (client_at s1)(c := (client_at s1 c)\<lparr>nick := new\<rparr>)\<rparr>;
          s3 = snd (ClientLookupSet_Add s2 c)
      in Broadcast s3 (remdups (Friends s3 c @ [c])) (RplNick c old new))"

subsection \<open>Wildcard lookup: ExpandUserHost, QuoteLike, FindAll\<close>








text \<open>The invariant of the nickname index (spec, data model): every entry of \<open>byNick\<close>
  sits under the lowercase nick of its client, and the rows of the table are the
  nickname and userhost of exactly the indexed clients.\<close>

definition index_consistent :: "Server \<Rightarrow> bool" where
  "index_consistent s =
     ((\<forall>k c. byNick s k = Some c \<longrightarrow>
         HasNick (client_at s c) \<and> k = ToLower (nick (client_at s c))) \<and>
      set (db s) = (\<lambda>c. (Nick (client_at s c), UserHost (client_at s c))) ` ran (byNick s))"

subsection \<open>Authorization commands\<close>

definition ProxyCommand_HandleAuthServer :: "Server \<Rightarrow> cid \<Rightarrow> string \<Rightarrow> Server" where
  "ProxyCommand_HandleAuthServer s c h =
     s\<lparr>client_at := (client_at s)(c := (client_at s c)\<lparr>hostname := h\<rparr>)\<rparr>"

definition PassCommand_HandleAuthServer :: "Server \<Rightarrow> cid \<Rightarrow> string option \<Rightarrow> Server" where
  "PassCommand_HandleAuthServer s c err =
     (if err \<noteq> None then Client_Quit (Reply s c ErrPasswdMismatch) c ''bad password''
      else s\<lparr>client_at := (client_at s)(c := (client_at s c)\<lparr>phase := Registration\<rparr>)\<rparr>)"

definition QuitCommand_HandleAuthServer :: "Server \<Rightarrow> cid \<Rightarrow> string \<Rightarrow> Server" where
  "QuitCommand_HandleAuthServer s c message = Client_Quit s c message"

text \<open>The method \<open>HandleAuthServer\<close> of the four commands that have one; the dispatcher
  calls it on no other command.\<close>

fun HandleAuthServer :: "Server \<Rightarrow> cid \<Rightarrow> Command \<Rightarrow> Server" where
  "HandleAuthServer s c (ProxyCommand h) = ProxyCommand_HandleAuthServer s c h"
| "HandleAuthServer s c CapCommand = s"
| "HandleAuthServer s c (PassCommand err) = PassCommand_HandleAuthServer s c err"
| "HandleAuthServer s c (QuitCommand message) = QuitCommand_HandleAuthServer s c message"
| "HandleAuthServer s c _ = s"

subsection \<open>Normal commands\<close>

definition PingCommand_HandleServer :: "Server \<Rightarrow> cid \<Rightarrow> Server" where
  "PingCommand_HandleServer s c = Reply s c RplPong"

definition PongCommand_HandleServer :: "Server \<Rightarrow> cid \<Rightarrow> Server" where
  "PongCommand_HandleServer s c = s"

definition QuitCommand_HandleServer :: "Server \<Rightarrow> cid \<Rightarrow> string \<Rightarrow> Server" where
  "QuitCommand_HandleServer s c message = Client_Quit s c message"

definition NickCommand_HandleServer :: "Server \<Rightarrow> cid \<Rightarrow> string \<Rightarrow> Server" where
  "NickCommand_HandleServer s c nickname =
     (if nickname = [] then Reply s c ErrNoNicknameGiven
      else if \<not> IsNickname nickname then Reply s c (ErrErroneusNickname nickname)
      else if nickname = nick (client_at s c) then s
      else (case ClientLookupSet_Get s nickname of
              Some target \<Rightarrow>
                if target \<noteq> c then Reply s c (ErrNickNameInUse nickname)
                else Client_ChangeNickname s c nickname
            | None \<Rightarrow> Client_ChangeNickname s c nickname))"

text \<open>JOIN. \<open>NewChannel\<close> and \<open>Channel.Join\<close> live in channel.go; the handler takes
  them as parameters: \<open>newChannel s name\<close> returns the state with the new channel and
  the channel, \<open>join s ch c key\<close> the state after the join.\<close>

definition JoinCommand_HandleServer ::
  "(Server \<Rightarrow> string \<Rightarrow> Server \<times> chid) \<Rightarrow> (Server \<Rightarrow> chid \<Rightarrow> cid \<Rightarrow> string \<Rightarrow> Server) \<Rightarrow>
   Server \<Rightarrow> cid \<Rightarrow> bool \<Rightarrow> (string \<times> string) list \<Rightarrow> Server" where
  "JoinCommand_HandleServer newChannel join s c zero chans =
     (if zero then
        fold (\<lambda>ch s'. Channel_Part s' ch c (Nick (client_at s' c))) (channels (client_at s c)) s
      else
        fold (\<lambda>(name, key) s'.
            if \<not> IsChannel name then Reply s' c (ErrNoSuchChannel name)
            else (case ChannelNameMap_Get s' name of
                    Some ch \<Rightarrow> join s' ch c key
                  | None \<Rightarrow> (let (s'', ch) = newChannel s' name in join s'' ch c key)))
          chans s)"

definition set_flag :: "Server \<Rightarrow> cid \<Rightarrow> UserMode \<Rightarrow> Server" where
  "set_flag s t m =
     s\<lparr>client_at := (client_at s)(t := (client_at s t)\<lparr>flags := insert m (flags (client_at s t))\<rparr>)\<rparr>"

definition delete_flag :: "Server \<Rightarrow> cid \<Rightarrow> UserMode \<Rightarrow> Server" where
  "delete_flag s t m =
     s\<lparr>client_at := (client_at s)(t := (client_at s t)\<lparr>flags := flags (client_at s t) - {m}\<rparr>)\<rparr>"

text \<open>One round of the loop over \<open>m.changes\<close>: the state and the changes applied so
  far, before and after the round. \<open>continue\<close> returns both as they are.\<close>

definition ModeCommand_step ::
  "cid \<Rightarrow> ModeChange \<Rightarrow> Server \<times> ModeChange list \<Rightarrow> Server \<times> ModeChange list" where
  "ModeCommand_step target change acc =
     (let s = fst acc; changes = snd acc in
      if mode change = Invisible \<or> mode change = ServerNotice \<or> mode change = WallOps then
        (if op change = Add then
           (if mode change \<in> flags (client_at s target) then acc
            else (set_flag s target (mode change), changes @ [change]))
         else if op change = Remove then
           (if mode change \<notin> flags (client_at s target) then acc
            else (delete_flag s target (mode change), changes @ [change]))
         else acc)
      else if mode change = Operator \<or> mode change = LocalOperator then
        (if op change = Remove then
           (if mode change \<notin> flags (client_at s target) then acc
            else (delete_flag s target (mode change), changes @ [change]))
         else acc)
      else acc)"

definition ModeCommand_HandleServer :: "Server \<Rightarrow> cid \<Rightarrow> string \<Rightarrow> ModeChange list \<Rightarrow> Server" where
  "ModeCommand_HandleServer s c nickname changes =
     (case ClientLookupSet_Get s nickname of
        None \<Rightarrow> Reply s c (ErrNoSuchNick nickname)
      | Some target \<Rightarrow>
          if c \<noteq> target \<and> Operator \<notin> flags (client_at s c) then Reply s c ErrUsersDontMatch
          else (let r = fold (ModeCommand_step target) changes (s, []) in
                if length (snd r) > 0 then Reply (fst r) c (RplMode c target (snd r))
                else fst r))"



definition NamesCommand_HandleServer :: "Server \<Rightarrow> cid \<Rightarrow> string list \<Rightarrow> Server" where
  "NamesCommand_HandleServer s c chans =
     (if length (server_channels s) = 0 then
        fold (\<lambda>e s'. Channel_Names s' (snd e) c) (server_channels s) s
      else
        fold (\<lambda>chname s'.
            (case ChannelNameMap_Get s' chname of
               None \<Rightarrow> Reply s' c (ErrNoSuchChannel chname)
             | Some ch \<Rightarrow> Channel_Names s' ch c))
          chans s)"

subsection \<open>The dispatcher\<close>

text \<open>Which commands have a method \<open>HandleAuthServer\<close>, \<open>HandleRegServer\<close>,
  \<open>HandleServer\<close> in server.go: the type assertions of \<open>processCommand\<close>. The two USER
  forms embed \<open>UserCommand\<close> and so have its \<open>HandleServer\<close>.\<close>

fun isAuthServerCommand :: "Command \<Rightarrow> bool" where
  "isAuthServerCommand (ProxyCommand _) = True"
| "isAuthServerCommand CapCommand = True"
| "isAuthServerCommand (PassCommand _) = True"
| "isAuthServerCommand (QuitCommand _) = True"
| "isAuthServerCommand _ = False"

fun isRegServerCommand :: "Command \<Rightarrow> bool" where
  "isRegServerCommand (ProxyCommand _) = True"
| "isRegServerCommand CapCommand = True"
| "isRegServerCommand (NickCommand _) = True"
| "isRegServerCommand (RFC1459UserCommand _ _) = True"
| "isRegServerCommand (RFC2812UserCommand _ _ _) = True"
| "isRegServerCommand (QuitCommand _) = True"
| "isRegServerCommand _ = False"

fun isServerCommand :: "Command \<Rightarrow> bool" where
  "isServerCommand (ProxyCommand _) = False"
| "isServerCommand CapCommand = False"
| "isServerCommand _ = True"

text \<open>\<open>Server.processCommand\<close>. The three handler tables are parameters (Go calls them
  through the interfaces); \<open>now\<close> is the clock's reading.\<close>

definition processCommand ::
  "(Server \<Rightarrow> cid \<Rightarrow> Command \<Rightarrow> Server) \<Rightarrow> (Server \<Rightarrow> cid \<Rightarrow> Command \<Rightarrow> Server) \<Rightarrow>
   (Server \<Rightarrow> cid \<Rightarrow> Command \<Rightarrow> Server) \<Rightarrow> nat \<Rightarrow> Server \<Rightarrow> cid \<Rightarrow> Command \<Rightarrow> Server" where
  "processCommand handleAuth handleReg handleSrv now s c cmd =
     (case phase (client_at s c) of
        Authorization \<Rightarrow>
          if \<not> isAuthServerCommand cmd then Client_Quit s c ''unexpected command''
          else handleAuth s c cmd
      | Registration \<Rightarrow>
          if \<not> isRegServerCommand cmd then Client_Quit s c ''unexpected command''
          else handleReg s c cmd
      | _ \<Rightarrow>
          if \<not> isServerCommand cmd then Reply s c (ErrUnknownCommand cmd)
          else handleSrv
            (case cmd of
               PingCommand \<Rightarrow> Client_Touch now s c
             | PongCommand \<Rightarrow> Client_Touch now s c
             | QuitCommand _ \<Rightarrow> s
             | _ \<Rightarrow> Client_Touch now (Client_Active now s c) c)
            c cmd)"

subsection \<open>Example states\<close>

definition mk_client :: "string \<Rightarrow> Phase \<Rightarrow> UserMode set \<Rightarrow> chid list \<Rightarrow> Client" where
  "mk_client n p fl chs =
     \<lparr>nick = n, username = n, realname = n, hostname = ''host'', flags = fl,
      awayMessage = [], channels = chs, phase = p, atime = 0, ttime = 0\<rparr>"

definition no_channel :: Channel where
  "no_channel = \<lparr>chname = [], chflags = {}, members = [], persistent = False\<rparr>"

text \<open>Two registered clients, \<open>alice\<close> (client 1) and \<open>bob\<close> (client 2), and a
  connection that has no nickname yet (client 0); client 3 is a second connection
  that took the nickname \<open>Alice\<close> for itself and is not indexed, client 4 one that
  has not sent its password yet.\<close>

definition index_example :: Server where
  "index_example =
     \<lparr>server_channels = [],
      byNick = [''alice'' \<mapsto> 1, ''bob'' \<mapsto> 2],
      db = [(''alice'', ''alice!alice@host''), (''bob'', ''bob!bob@host'')],
      client_at = (\<lambda>_. mk_client [] Registration {} [])
        (1 := mk_client ''alice'' Normal {} [],
         2 := mk_client ''bob'' Normal {} [],
         3 := mk_client ''Alice'' Registration {} [],
         4 := mk_client [] Authorization {} []),
      channel_at = (\<lambda>_. no_channel),
      outq = []\<rparr>"

text \<open>The same server with \<open>alice\<close> an operator, and with \<open>bob\<close> invisible.\<close>

definition oper_example :: Server where
  "oper_example = set_flag index_example 1 Operator"

definition invisible_example :: Server where
  "invisible_example = set_flag index_example 2 Invisible"

text \<open>A server with two channels: \<open>#pub\<close> (channel 10) with \<open>alice\<close> and \<open>bob\<close>, and the
  private \<open>#priv\<close> (channel 11) with \<open>alice\<close> alone; client 5 is an operator.\<close>

definition channel_example :: Server where
  "channel_example =
     index_example
     \<lparr>server_channels := [(''#pub'', 10), (''#priv'', 11)],
      client_at := (client_at index_example)
        (1 := mk_client ''alice'' Normal {} [10, 11],
         2 := mk_client ''bob'' Normal {} [10],
         5 := mk_client ''carol'' Normal {Operator} []),
      channel_at := (\<lambda>_. no_channel)
        (10 := \<lparr>chname = ''#pub'', chflags = {}, members = [1, 2], persistent = False\<rparr>,
         11 := \<lparr>chname = ''#priv'', chflags = {Private}, members = [1], persistent = False\<rparr>)\<rparr>"

section \<open>Properties\<close>

subsection \<open>Lemmas on the wildcard lookup\<close>










lemma consistent_key:
  "index_consistent s \<Longrightarrow> byNick s k = Some c \<Longrightarrow> k = ToLower (nick (client_at s c))"
  unfolding index_consistent_def by blast

lemma consistent_rows:
  "index_consistent s \<Longrightarrow>
   ((n, u) \<in> set (db s)) =
     (\<exists>c. c \<in> ran (byNick s) \<and> n = Nick (client_at s c) \<and> u = UserHost (client_at s c))"
  unfolding index_consistent_def by (simp add: image_iff) blast





text \<open>The invariant holds of the example and is kept by \<open>Add\<close> and \<open>Remove\<close>,
  whether they succeed or fail.\<close>

lemma consistent_ran_key:
  assumes "index_consistent s" "c \<in> ran (byNick s)"
  shows "byNick s (ToLower (nick (client_at s c))) = Some c"
proof -
  from assms(2) obtain k where k: "byNick s k = Some c" unfolding ran_def by blast
  from consistent_key [OF assms(1) k] k show ?thesis by simp
qed

lemma index_consistent_Add:
  assumes inv: "index_consistent s"
  shows "index_consistent (snd (ClientLookupSet_Add s c))"
proof (cases "HasNick (client_at s c) \<and> byNick s (ToLower (nick (client_at s c))) = None")
  case False
  with inv show ?thesis
    by (auto simp: ClientLookupSet_Add_def ClientLookupSet_Get_def)
next
  case True
  define k where "k = ToLower (nick (client_at s c))"
  from True have hn: "HasNick (client_at s c)" and free: "byNick s k = None"
    by (simp_all add: k_def)
  have fresh: "Nick (client_at s c) \<notin> fst ` set (db s)"
  proof
    assume "Nick (client_at s c) \<in> fst ` set (db s)"
    then obtain u where "(Nick (client_at s c), u) \<in> set (db s)" by force
    then obtain c' where c': "c' \<in> ran (byNick s)" "Nick (client_at s c) = Nick (client_at s c')"
      unfolding consistent_rows [OF inv] by blast
    from consistent_ran_key [OF inv c'(1)] c'(2) have "byNick s k = Some c'"
      by (simp add: k_def Nick_def)
    with free show False by simp
  qed
  have e: "snd (ClientLookupSet_Add s c) =
      s\<lparr>byNick := (byNick s)(k \<mapsto> c), db := db s @ [(Nick (client_at s c), UserHost (client_at s c))]\<rparr>"
    using True fresh
    by (simp add: ClientLookupSet_Add_def ClientLookupSet_Get_def ClientDB_Add_def k_def Let_def)
  have r: "ran ((byNick s)(k \<mapsto> c)) = insert c (ran (byNick s))"
    using free by (rule ran_map_upd)
  have a: "\<forall>k' c'. ((byNick s)(k \<mapsto> c)) k' = Some c' \<longrightarrow>
      HasNick (client_at s c') \<and> k' = ToLower (nick (client_at s c'))"
  proof (intro allI impI)
    fix k' c' assume h: "((byNick s)(k \<mapsto> c)) k' = Some c'"
    show "HasNick (client_at s c') \<and> k' = ToLower (nick (client_at s c'))"
    proof (cases "k' = k")
      case True
      with h have "c' = c" by simp
      with True hn show ?thesis by (simp add: k_def)
    next
      case False
      with h have "byNick s k' = Some c'" by simp
      with inv show ?thesis unfolding index_consistent_def by blast
    qed
  qed
  from inv have rows: "set (db s) =
      (\<lambda>c. (Nick (client_at s c), UserHost (client_at s c))) ` ran (byNick s)"
    unfolding index_consistent_def by blast
  show ?thesis
    unfolding e index_consistent_def using a by (simp add: r rows)
qed

lemma index_consistent_Remove:
  assumes inv: "index_consistent s"
  shows "index_consistent (snd (ClientLookupSet_Remove s c))"
proof (cases "HasNick (client_at s c) \<and> byNick s (ToLower (nick (client_at s c))) = Some c")
  case False
  with inv show ?thesis
    by (auto simp: ClientLookupSet_Remove_def ClientLookupSet_Get_def)
next
  case True
  define k where "k = ToLower (nick (client_at s c))"
  from True have at: "byNick s k = Some c" by (simp add: k_def)
  have e: "snd (ClientLookupSet_Remove s c) =
      s\<lparr>byNick := (byNick s)(k := None),
        db := filter (\<lambda>row. fst row \<noteq> Nick (client_at s c)) (db s)\<rparr>"
    using True
    by (simp add: ClientLookupSet_Remove_def ClientLookupSet_Get_def ClientDB_Remove_def k_def)
  have r: "ran ((byNick s)(k := None)) = ran (byNick s) - {c}"
  proof (intro set_eqI iffI)
    fix x assume "x \<in> ran ((byNick s)(k := None))"
    then obtain k' where k': "((byNick s)(k := None)) k' = Some x" unfolding ran_def by blast
    then have ne: "k' \<noteq> k" and old: "byNick s k' = Some x" by (auto split: if_splits)
    have "x \<noteq> c"
    proof
      assume "x = c"
      with old consistent_key [OF inv, of k' c] have "k' = k" by (simp add: k_def)
      with ne show False by simp
    qed
    with old show "x \<in> ran (byNick s) - {c}" by (auto intro: ranI)
  next
    fix x assume "x \<in> ran (byNick s) - {c}"
    then obtain k' where k': "byNick s k' = Some x" and xc: "x \<noteq> c" unfolding ran_def by blast
    with at have "k' \<noteq> k" by auto
    with k' have "((byNick s)(k := None)) k' = Some x" by simp
    then show "x \<in> ran ((byNick s)(k := None))" by (rule ranI)
  qed
  have a: "\<forall>k' c'. ((byNick s)(k := None)) k' = Some c' \<longrightarrow>
      HasNick (client_at s c') \<and> k' = ToLower (nick (client_at s c'))"
  proof (intro allI impI)
    fix k' c' assume "((byNick s)(k := None)) k' = Some c'"
    then have "byNick s k' = Some c'" by (auto split: if_splits)
    with inv show "HasNick (client_at s c') \<and> k' = ToLower (nick (client_at s c'))"
      unfolding index_consistent_def by blast
  qed
  have same_nick: "\<And>c'. c' \<in> ran (byNick s) \<Longrightarrow>
      (Nick (client_at s c') = Nick (client_at s c)) = (c' = c)"
  proof
    fix c' assume c': "c' \<in> ran (byNick s)" and n: "Nick (client_at s c') = Nick (client_at s c)"
    from consistent_ran_key [OF inv c'] n have "byNick s k = Some c'"
      by (simp add: k_def Nick_def)
    with at show "c' = c" by simp
  next
    fix c' assume "c' = c" then show "Nick (client_at s c') = Nick (client_at s c)" by simp
  qed
  from inv have rows: "set (db s) =
      (\<lambda>c. (Nick (client_at s c), UserHost (client_at s c))) ` ran (byNick s)"
    unfolding index_consistent_def by blast
  have b: "set (filter (\<lambda>row. fst row \<noteq> Nick (client_at s c)) (db s)) =
      (\<lambda>c. (Nick (client_at s c), UserHost (client_at s c))) ` (ran (byNick s) - {c})"
    unfolding set_filter rows using same_nick by auto
  show ?thesis
    unfolding e index_consistent_def using a b by (simp add: r)
qed



subsection \<open>Lemmas on replies and the quit path\<close>

lemma Broadcast_eq: "Broadcast s cs r = s\<lparr>outq := outq s @ map (\<lambda>c. (c, r)) cs\<rparr>"
proof (induction cs arbitrary: s)
  case Nil
  then show ?case by (simp add: Broadcast_def)
next
  case (Cons a cs)
  have "Broadcast s (a # cs) r = Broadcast (Reply s a r) cs r"
    by (simp add: Broadcast_def)
  also have "\<dots> = (Reply s a r)\<lparr>outq := outq (Reply s a r) @ map (\<lambda>c. (c, r)) cs\<rparr>"
    by (rule Cons.IH)
  finally show ?case by (simp add: Reply_def)
qed

lemma Channel_Remove_outq: "outq (Channel_Remove s ch c) = outq s"
  by (simp add: Channel_Remove_def Let_def)

lemma fold_Channel_Remove_outq:
  "outq (fold (\<lambda>ch s'. Channel_Remove s' ch c) chs s) = outq s"
  by (induction chs arbitrary: s) (simp_all add: Channel_Remove_outq)

lemma ClientLookupSet_Remove_outq: "outq (snd (ClientLookupSet_Remove s c)) = outq s"
  by (simp add: ClientLookupSet_Remove_def ClientDB_Remove_def)

lemma Client_Quit_outq:
  "outq (Client_Quit s c reason) =
     outq s @ map (\<lambda>f. (f, RplQuit c reason)) (removeAll c (Friends s c))"
  by (simp add: Client_Quit_def Let_def ClientLookupSet_Remove_outq Broadcast_eq
      fold_Channel_Remove_outq)

lemma Client_Quit_phase: "phase (client_at (Client_Quit s c reason) c) = Terminated"
  by (simp add: Client_Quit_def Let_def)

lemma Friends_Reply: "Friends (Reply s d r) c = Friends s c"
  by (simp add: Friends_def Reply_def)

subsection \<open>Lemmas on the loop of user MODE\<close>


lemma flags_set_flag:
  "flags (client_at (set_flag s t m) d) =
     (if d = t then insert m (flags (client_at s d)) else flags (client_at s d))"
  by (simp add: set_flag_def)

lemma flags_delete_flag:
  "flags (client_at (delete_flag s t m) d) =
     (if d = t then flags (client_at s d) - {m} else flags (client_at s d))"
  by (simp add: delete_flag_def)

lemma outq_flag: "outq (set_flag s t m) = outq s" "outq (delete_flag s t m) = outq s"
  by (simp_all add: set_flag_def delete_flag_def)












lemma Get_alice:
  "ClientLookupSet_Get index_example ''alice'' = Some 1"
  "ClientLookupSet_Get oper_example ''alice'' = Some 1"
  "ClientLookupSet_Get invisible_example ''bob'' = Some 2"
  by code_simp+

lemma IsNickname_alice: "IsNickname ''alice''" "IsNickname ''ALICE''"
  by code_simp+

subsection \<open>Lemmas on the loops that only reply\<close>

lemma Reply_fields:
  "client_at (Reply s c r) = client_at s" "channel_at (Reply s c r) = channel_at s"
  "server_channels (Reply s c r) = server_channels s" "outq (Reply s c r) = outq s @ [(c, r)]"
  by (simp_all add: Reply_def)

lemma ChannelNameMap_Get_Reply: "ChannelNameMap_Get (Reply s c r) n = ChannelNameMap_Get s n"
  by (simp add: ChannelNameMap_Get_def Reply_def)







subsection \<open>Lemmas on parting\<close>

lemma Channel_Part_eq:
  "Channel_Part s ch c reason =
     (Channel_Remove s ch c)
     \<lparr>outq := outq s @
        map (\<lambda>m. (m, RplPart c ch reason)) (removeAll c (members (channel_at s ch)))\<rparr>"
  by (simp add: Channel_Part_def Broadcast_eq Let_def Channel_Remove_def)

lemma Channel_Part_nick: "nick (client_at (Channel_Part s ch c reason) d) = nick (client_at s d)"
  by (simp add: Channel_Part_eq Channel_Remove_def Let_def)

lemma Channel_Part_channels:
  "channels (client_at (Channel_Part s ch c reason) c) = removeAll ch (channels (client_at s c))"
  by (simp add: Channel_Part_eq Channel_Remove_def Let_def)

lemma Channel_Part_members:
  "members (channel_at (Channel_Part s ch c reason) ch') =
     (if ch' = ch then removeAll c (members (channel_at s ch')) else members (channel_at s ch'))"
  by (simp add: Channel_Part_eq Channel_Remove_def Let_def)

lemma Channel_Part_outq:
  "outq (Channel_Part s ch c reason) =
     outq s @ map (\<lambda>m. (m, RplPart c ch reason)) (removeAll c (members (channel_at s ch)))"
  by (simp add: Channel_Part_eq)

lemma Channel_Part_table:
  "set (server_channels (Channel_Part s ch c reason)) \<subseteq> set (server_channels s)"
  by (auto simp: Channel_Part_eq Channel_Remove_def Let_def)

lemma part_loop_reason:
  "nick (client_at s c) = n \<Longrightarrow>
   fold (\<lambda>ch s'. Channel_Part s' ch c (Nick (client_at s' c))) chs s =
   fold (\<lambda>ch s'. Channel_Part s' ch c n) chs s"
  by (induction chs arbitrary: s) (simp_all add: Nick_def Channel_Part_nick)

lemma part_loop_channels:
  "channels (client_at (fold (\<lambda>ch s'. Channel_Part s' ch c n) chs s) c) =
     filter (\<lambda>x. x \<notin> set chs) (channels (client_at s c))"
proof (induction chs arbitrary: s)
  case Nil
  then show ?case by simp
next
  case (Cons ch chs)
  show ?case
    by (auto simp add: Cons.IH Channel_Part_channels removeAll_filter_not_eq
        intro!: filter_cong)
qed

lemma part_loop_members:
  "members (channel_at (fold (\<lambda>ch s'. Channel_Part s' ch c n) chs s) ch') =
     (if ch' \<in> set chs then removeAll c (members (channel_at s ch'))
      else members (channel_at s ch'))"
  by (induction chs arbitrary: s) (simp_all add: Channel_Part_members)

lemma part_loop_outq:
  "outq (fold (\<lambda>ch s'. Channel_Part s' ch c n) chs s) =
     outq s @ concat (map (\<lambda>ch. map (\<lambda>m. (m, RplPart c ch n))
        (removeAll c (members (channel_at s ch)))) chs)"
proof (induction chs arbitrary: s)
  case Nil
  then show ?case by simp
next
  case (Cons ch chs)
  have "\<And>x. removeAll c (members (channel_at (Channel_Part s ch c n) x)) =
      removeAll c (members (channel_at s x))"
    by (simp add: Channel_Part_members)
  then show ?case
    by (simp add: Cons.IH Channel_Part_outq)
qed

lemma part_loop_table:
  "set (server_channels (fold (\<lambda>ch s'. Channel_Part s' ch c n) chs s)) \<subseteq> set (server_channels s)"
proof (induction chs arbitrary: s)
  case Nil
  then show ?case by simp
next
  case (Cons ch chs)
  have "set (server_channels (fold (\<lambda>ch s'. Channel_Part s' ch c n) chs (Channel_Part s ch c n)))
      \<subseteq> set (server_channels (Channel_Part s ch c n))"
    by (rule Cons.IH)
  also have "\<dots> \<subseteq> set (server_channels s)" by (rule Channel_Part_table)
  finally show ?case by simp
qed

subsection \<open>The nickname index rejects without changing anything\<close>

text \<open>
  C4. \<open>ClientLookupSet.Add\<close> returns \<open>ErrNickMissing\<close> for a client without a nick and
  \<open>ErrNicknameInUse\<close> when an entry already sits under the client's lowercase nick; in
  both cases the index (indeed the whole state) is returned unchanged.
  \<open>ClientLookupSet.Remove\<close> returns \<open>ErrNickMissing\<close> for a client without a nick and
  \<open>ErrNicknameMismatch\<close> when the entry under the client's lowercase nick is another
  client; the state is unchanged, so that other client's entry is still there.
\<close>

theorem index_errors_leave_state:
  "(\<not> HasNick (client_at s c) \<longrightarrow> ClientLookupSet_Add s c = (Some ErrNickMissing, s)) \<and>
   (HasNick (client_at s c) \<and> byNick s (ToLower (nick (client_at s c))) = Some d \<longrightarrow>
      ClientLookupSet_Add s c = (Some ErrNicknameInUse, s)) \<and>
   (\<not> HasNick (client_at s c) \<longrightarrow> ClientLookupSet_Remove s c = (Some ErrNickMissing, s)) \<and>
   (HasNick (client_at s c) \<and> byNick s (ToLower (nick (client_at s c))) = Some d \<and> d \<noteq> c \<longrightarrow>
      ClientLookupSet_Remove s c = (Some ErrNicknameMismatch, s) \<and>
      byNick (snd (ClientLookupSet_Remove s c)) (ToLower (nick (client_at s c))) = Some d)"
  by (simp add: ClientLookupSet_Add_def ClientLookupSet_Remove_def ClientLookupSet_Get_def)

theorem index_errors_leave_state_witness:
  "\<not> HasNick (client_at index_example 0) \<and>
   ClientLookupSet_Add index_example 0 = (Some ErrNickMissing, index_example) \<and>
   ClientLookupSet_Remove index_example 0 = (Some ErrNickMissing, index_example) \<and>
   HasNick (client_at index_example 3) \<and>
   byNick index_example (ToLower (nick (client_at index_example 3))) = Some 1 \<and>
   ClientLookupSet_Add index_example 3 = (Some ErrNicknameInUse, index_example) \<and>
   ClientLookupSet_Remove index_example 3 = (Some ErrNicknameMismatch, index_example) \<and>
   byNick (snd (ClientLookupSet_Remove index_example 3)) ''alice'' = Some 1"
proof -
  have h0: "\<not> HasNick (client_at index_example 0)"
    by (simp add: index_example_def mk_client_def HasNick_def)
  have h3: "HasNick (client_at index_example 3)"
    by (simp add: index_example_def mk_client_def HasNick_def)
  have l3: "ToLower (nick (client_at index_example 3)) = ''alice''"
    by (simp add: index_example_def mk_client_def ToLower_def lower_char_def)
  have e3: "byNick index_example ''alice'' = Some 1"
    by (simp add: index_example_def)
  show ?thesis
    using index_errors_leave_state [of index_example 0 1]
      index_errors_leave_state [of index_example 3 1] h0 h3 l3 e3
    by simp
qed

subsection \<open>FindAll is the wildcard match over the indexed clients\<close>



subsection \<open>PASS during authorization\<close>

text \<open>
  C3. For a client in the Authorization phase, the dispatcher hands PASS to its
  authorization handler. When the password matched (\<open>err\<close> is \<open>nil\<close>) the only change is
  that the client's phase becomes Registration; nothing is sent. When it did not match,
  the client is sent ERR_PASSWDMISMATCH and then quit with "bad password": the reply is
  the first thing enqueued, the QUIT broadcast follows it, and the client's phase is
  Terminated, not Registration.
\<close>

theorem pass_in_authorization:
  assumes "phase (client_at s c) = Authorization"
  shows
    "processCommand HandleAuthServer hR hS now s c (PassCommand None) =
       s\<lparr>client_at := (client_at s)(c := (client_at s c)\<lparr>phase := Registration\<rparr>)\<rparr> \<and>
     phase (client_at (processCommand HandleAuthServer hR hS now s c (PassCommand None)) c) =
       Registration \<and>
     outq (processCommand HandleAuthServer hR hS now s c (PassCommand None)) = outq s \<and>
     processCommand HandleAuthServer hR hS now s c (PassCommand (Some e)) =
       Client_Quit (Reply s c ErrPasswdMismatch) c ''bad password'' \<and>
     outq (processCommand HandleAuthServer hR hS now s c (PassCommand (Some e))) =
       outq s @ (c, ErrPasswdMismatch) #
         map (\<lambda>f. (f, RplQuit c ''bad password'')) (removeAll c (Friends s c)) \<and>
     phase (client_at (processCommand HandleAuthServer hR hS now s c (PassCommand (Some e))) c) =
       Terminated"
proof -
  have ok: "processCommand HandleAuthServer hR hS now s c (PassCommand None) =
       s\<lparr>client_at := (client_at s)(c := (client_at s c)\<lparr>phase := Registration\<rparr>)\<rparr>"
    using assms by (simp add: processCommand_def PassCommand_HandleAuthServer_def)
  have bad: "processCommand HandleAuthServer hR hS now s c (PassCommand (Some e)) =
       Client_Quit (Reply s c ErrPasswdMismatch) c ''bad password''"
    using assms by (simp add: processCommand_def PassCommand_HandleAuthServer_def)
  have q: "outq (Client_Quit (Reply s c ErrPasswdMismatch) c ''bad password'') =
       outq s @ (c, ErrPasswdMismatch) #
         map (\<lambda>f. (f, RplQuit c ''bad password'')) (removeAll c (Friends s c))"
    unfolding Client_Quit_outq Friends_Reply by (simp add: Reply_def)
  show ?thesis
    unfolding ok bad q Client_Quit_phase by simp
qed

theorem pass_in_authorization_witness:
  "phase (client_at index_example 4) = Authorization \<and>
   phase (client_at (processCommand HandleAuthServer (\<lambda>s c cmd. s) (\<lambda>s c cmd. s) 0
      index_example 4 (PassCommand None)) 4) = Registration \<and>
   outq (processCommand HandleAuthServer (\<lambda>s c cmd. s) (\<lambda>s c cmd. s) 0
      index_example 4 (PassCommand None)) = [] \<and>
   outq (processCommand HandleAuthServer (\<lambda>s c cmd. s) (\<lambda>s c cmd. s) 0
      index_example 4 (PassCommand (Some ''mismatch''))) = [(4, ErrPasswdMismatch)] \<and>
   phase (client_at (processCommand HandleAuthServer (\<lambda>s c cmd. s) (\<lambda>s c cmd. s) 0
      index_example 4 (PassCommand (Some ''mismatch''))) 4) = Terminated"
proof -
  have p: "phase (client_at index_example 4) = Authorization"
    by (simp add: index_example_def mk_client_def)
  have f: "Friends index_example 4 = []"
    by (simp add: Friends_def index_example_def mk_client_def)
  have q: "outq index_example = []"
    by (simp add: index_example_def)
  note t = pass_in_authorization [OF p, of "\<lambda>s c cmd. s" "\<lambda>s c cmd. s" 0 "''mismatch''"]
  from t have a: "phase (client_at (processCommand HandleAuthServer (\<lambda>s c cmd. s) (\<lambda>s c cmd. s) 0
      index_example 4 (PassCommand None)) 4) = Registration"
    by blast
  from t have "outq (processCommand HandleAuthServer (\<lambda>s c cmd. s) (\<lambda>s c cmd. s) 0
      index_example 4 (PassCommand None)) = outq index_example"
    by blast
  then have b: "outq (processCommand HandleAuthServer (\<lambda>s c cmd. s) (\<lambda>s c cmd. s) 0
      index_example 4 (PassCommand None)) = []"
    by (simp only: q)
  from t have "outq (processCommand HandleAuthServer (\<lambda>s c cmd. s) (\<lambda>s c cmd. s) 0
      index_example 4 (PassCommand (Some ''mismatch''))) =
      outq index_example @ (4, ErrPasswdMismatch) #
        map (\<lambda>f. (f, RplQuit 4 ''bad password'')) (removeAll 4 (Friends index_example 4))"
    by blast
  then have d: "outq (processCommand HandleAuthServer (\<lambda>s c cmd. s) (\<lambda>s c cmd. s) 0
      index_example 4 (PassCommand (Some ''mismatch''))) = [(4, ErrPasswdMismatch)]"
    by (simp add: f q)
  from t have e: "phase (client_at (processCommand HandleAuthServer (\<lambda>s c cmd. s) (\<lambda>s c cmd. s) 0
      index_example 4 (PassCommand (Some ''mismatch''))) 4) = Terminated"
    by blast
  from p a b d e show ?thesis by (intro conjI)
qed

subsection \<open>The timestamps the dispatcher bumps\<close>

text \<open>
  C7. For a client in the Normal phase and a command that has a normal handler: PING and
  PONG reach the handler after \<open>Touch\<close> alone (the last-touched timestamp is the clock's
  reading, the last-active one is as before), and their handlers leave the client records
  alone; QUIT reaches its handler on the state as it was; every other command reaches
  its handler after \<open>Active\<close> and \<open>Touch\<close>, with both timestamps at the clock's reading.
\<close>

theorem timestamps_by_command:
  assumes "phase (client_at s c) = Normal" and "isServerCommand cmd"
  shows
    "(cmd = PingCommand \<or> cmd = PongCommand \<longrightarrow>
        processCommand hA hR hS now s c cmd = hS (Client_Touch now s c) c cmd \<and>
        ttime (client_at (Client_Touch now s c) c) = now \<and>
        atime (client_at (Client_Touch now s c) c) = atime (client_at s c)) \<and>
     ((\<exists>m. cmd = QuitCommand m) \<longrightarrow>
        processCommand hA hR hS now s c cmd = hS s c cmd) \<and>
     (cmd \<noteq> PingCommand \<and> cmd \<noteq> PongCommand \<and> (\<forall>m. cmd \<noteq> QuitCommand m) \<longrightarrow>
        processCommand hA hR hS now s c cmd =
          hS (Client_Touch now (Client_Active now s c) c) c cmd \<and>
        atime (client_at (Client_Touch now (Client_Active now s c) c) c) = now \<and>
        ttime (client_at (Client_Touch now (Client_Active now s c) c) c) = now) \<and>
     client_at (PingCommand_HandleServer s' c) = client_at s' \<and>
     PongCommand_HandleServer s' c = s'"
proof -
  have ts: "ttime (client_at (Client_Touch now s c) c) = now"
    "atime (client_at (Client_Touch now s c) c) = atime (client_at s c)"
    "atime (client_at (Client_Touch now (Client_Active now s c) c) c) = now"
    "ttime (client_at (Client_Touch now (Client_Active now s c) c) c) = now"
    by (simp_all add: Client_Touch_def Client_Active_def)
  have h: "client_at (PingCommand_HandleServer s' c) = client_at s'"
    "PongCommand_HandleServer s' c = s'"
    by (simp_all add: PingCommand_HandleServer_def PongCommand_HandleServer_def Reply_def)
  from assms show ?thesis
    unfolding ts h
    by (cases cmd) (simp_all add: processCommand_def)
qed

theorem timestamps_by_command_witness:
  "phase (client_at index_example 1) = Normal \<and>
   processCommand HandleAuthServer (\<lambda>s c cmd. s) (\<lambda>s c cmd. PingCommand_HandleServer s c) 7
      index_example 1 PingCommand = PingCommand_HandleServer (Client_Touch 7 index_example 1) 1 \<and>
   ttime (client_at (Client_Touch 7 index_example 1) 1) = 7 \<and>
   atime (client_at (Client_Touch 7 index_example 1) 1) = atime (client_at index_example 1) \<and>
   processCommand HandleAuthServer (\<lambda>s c cmd. s) (\<lambda>s c cmd. QuitCommand_HandleServer s c ''bye'') 7
      index_example 1 (QuitCommand ''bye'') = QuitCommand_HandleServer index_example 1 ''bye'' \<and>
   processCommand HandleAuthServer (\<lambda>s c cmd. s) (\<lambda>s c cmd. NamesCommand_HandleServer s c []) 7
      index_example 1 (NamesCommand []) =
     NamesCommand_HandleServer (Client_Touch 7 (Client_Active 7 index_example 1) 1) 1 [] \<and>
   atime (client_at (Client_Touch 7 (Client_Active 7 index_example 1) 1) 1) = 7 \<and>
   ttime (client_at (Client_Touch 7 (Client_Active 7 index_example 1) 1) 1) = 7"
proof -
  have p: "phase (client_at index_example 1) = Normal"
    by (simp add: index_example_def mk_client_def)
  show ?thesis
    using timestamps_by_command [OF p, of PingCommand HandleAuthServer "\<lambda>s c cmd. s"
        "\<lambda>s c cmd. PingCommand_HandleServer s c" 7]
      timestamps_by_command [OF p, of "QuitCommand ''bye''" HandleAuthServer "\<lambda>s c cmd. s"
        "\<lambda>s c cmd. QuitCommand_HandleServer s c ''bye''" 7]
      timestamps_by_command [OF p, of "NamesCommand []" HandleAuthServer "\<lambda>s c cmd. s"
        "\<lambda>s c cmd. NamesCommand_HandleServer s c []" 7] p
    by simp
qed

subsection \<open>User MODE never grants operator status\<close>



subsection \<open>User MODE applies the changes one after the other\<close>

text \<open>
  C2 (as amended). A user MODE on oneself applies its changes in order and reports the
  ones it applied, not their net effect. After \<open>+i-i\<close> the client is not invisible,
  whatever it was before: the flags are those of before without Invisible, and the reply
  lists \<open>+i-i\<close> when the client was not invisible and \<open>-i\<close> when it was. After \<open>-i+i\<close>
  the client is invisible: the reply lists \<open>+i\<close> when it was not, and \<open>-i+i\<close> when it
  was. So the flag set is the one of before exactly when the last change restores it, and
  a MODE reply is sent in every case.
\<close>

theorem mode_invisible_in_order:
  assumes "ClientLookupSet_Get s nickname = Some c"
  shows
    "flags (client_at (ModeCommand_HandleServer s c nickname
        [\<lparr>mode = Invisible, op = Add\<rparr>, \<lparr>mode = Invisible, op = Remove\<rparr>]) c) =
       flags (client_at s c) - {Invisible} \<and>
     outq (ModeCommand_HandleServer s c nickname
        [\<lparr>mode = Invisible, op = Add\<rparr>, \<lparr>mode = Invisible, op = Remove\<rparr>]) =
       outq s @ [(c, RplMode c c
         (if Invisible \<in> flags (client_at s c) then [\<lparr>mode = Invisible, op = Remove\<rparr>]
          else [\<lparr>mode = Invisible, op = Add\<rparr>, \<lparr>mode = Invisible, op = Remove\<rparr>]))] \<and>
     flags (client_at (ModeCommand_HandleServer s c nickname
        [\<lparr>mode = Invisible, op = Remove\<rparr>, \<lparr>mode = Invisible, op = Add\<rparr>]) c) =
       insert Invisible (flags (client_at s c)) \<and>
     outq (ModeCommand_HandleServer s c nickname
        [\<lparr>mode = Invisible, op = Remove\<rparr>, \<lparr>mode = Invisible, op = Add\<rparr>]) =
       outq s @ [(c, RplMode c c
         (if Invisible \<in> flags (client_at s c)
          then [\<lparr>mode = Invisible, op = Remove\<rparr>, \<lparr>mode = Invisible, op = Add\<rparr>]
          else [\<lparr>mode = Invisible, op = Add\<rparr>]))]"
  using assms
  by (simp add: ModeCommand_HandleServer_def ModeCommand_step_def Let_def Reply_def
      flags_set_flag flags_delete_flag outq_flag)

theorem mode_invisible_in_order_witness:
  "ClientLookupSet_Get index_example ''alice'' = Some 1 \<and>
   flags (client_at (ModeCommand_HandleServer index_example 1 ''alice''
        [\<lparr>mode = Invisible, op = Add\<rparr>, \<lparr>mode = Invisible, op = Remove\<rparr>]) 1) =
     flags (client_at index_example 1) - {Invisible} \<and>
   flags (client_at (ModeCommand_HandleServer index_example 1 ''alice''
        [\<lparr>mode = Invisible, op = Remove\<rparr>, \<lparr>mode = Invisible, op = Add\<rparr>]) 1) =
     insert Invisible (flags (client_at index_example 1))"
  using mode_invisible_in_order [OF Get_alice(1)] Get_alice(1) by blast

text \<open>
  The claim as stated fails twice: a client that is not invisible gets the reply
  \<open>+i-i\<close> although nothing changed on balance, and a client that is invisible has lost
  the flag after \<open>+i-i\<close>.
\<close>

theorem mode_invisible_net_change_counterexample:
  "phase (client_at index_example 1) = Normal \<and>
   phase (client_at invisible_example 2) = Normal \<and>
   outq index_example = [] \<and>
   outq (ModeCommand_HandleServer index_example 1 ''alice''
        [\<lparr>mode = Invisible, op = Add\<rparr>, \<lparr>mode = Invisible, op = Remove\<rparr>]) =
     [(1, RplMode 1 1 [\<lparr>mode = Invisible, op = Add\<rparr>, \<lparr>mode = Invisible, op = Remove\<rparr>])] \<and>
   flags (client_at invisible_example 2) = {Invisible} \<and>
   flags (client_at (ModeCommand_HandleServer invisible_example 2 ''bob''
        [\<lparr>mode = Invisible, op = Add\<rparr>, \<lparr>mode = Invisible, op = Remove\<rparr>]) 2) = {}"
  by code_simp

subsection \<open>NICK to the nickname the client has\<close>

text \<open>
  C6 (as amended). A NICK command whose argument is, character for character, the
  nickname the client has (a valid nickname, as that of a registered client is) changes
  nothing: the state after the handler is the state before, so nothing is sent and the
  nickname and the index are as they were. An argument that is another spelling of the
  client's own nickname (the index finds the client itself under it) is a change of
  nickname: the handler calls \<open>ChangeNickname\<close>.
\<close>

theorem nick_same_spelling_noop:
  assumes "IsNickname nickname"
  shows
    "(nickname = nick (client_at s c) \<longrightarrow> NickCommand_HandleServer s c nickname = s) \<and>
     (nickname \<noteq> nick (client_at s c) \<and> ClientLookupSet_Get s nickname = Some c \<longrightarrow>
        NickCommand_HandleServer s c nickname = Client_ChangeNickname s c nickname)"
proof -
  from assms have "nickname \<noteq> []" by (auto simp: IsNickname_def)
  with assms show ?thesis by (auto simp: NickCommand_HandleServer_def)
qed

theorem nick_same_spelling_noop_witness:
  "IsNickname ''alice'' \<and> ''alice'' = nick (client_at index_example 1) \<and>
   NickCommand_HandleServer index_example 1 ''alice'' = index_example \<and>
   IsNickname ''ALICE'' \<and> ''ALICE'' \<noteq> nick (client_at index_example 1) \<and>
   ClientLookupSet_Get index_example ''ALICE'' = Some 1 \<and>
   NickCommand_HandleServer index_example 1 ''ALICE'' =
     Client_ChangeNickname index_example 1 ''ALICE''"
proof -
  have n: "nick (client_at index_example 1) = ''alice''" by code_simp
  have g: "ClientLookupSet_Get index_example ''ALICE'' = Some 1" by code_simp
  from nick_same_spelling_noop [OF IsNickname_alice(1), of index_example 1] n
  have a: "NickCommand_HandleServer index_example 1 ''alice'' = index_example" by simp
  from nick_same_spelling_noop [OF IsNickname_alice(2), of index_example 1] n g
  have b: "NickCommand_HandleServer index_example 1 ''ALICE'' =
     Client_ChangeNickname index_example 1 ''ALICE''" by simp
  from IsNickname_alice n a b g show ?thesis by simp
qed

text \<open>
  The claim as stated, with "same" read without regard to case, fails: \<open>alice\<close> sending
  \<open>NICK ALICE\<close> is renamed, the table row is rewritten and NICK is broadcast.
\<close>

theorem nick_other_case_counterexample:
  "phase (client_at index_example 1) = Normal \<and>
   ToLower ''ALICE'' = ToLower (nick (client_at index_example 1)) \<and>
   outq index_example = [] \<and>
   outq (NickCommand_HandleServer index_example 1 ''ALICE'') = [(1, RplNick 1 ''alice'' ''ALICE'')] \<and>
   nick (client_at (NickCommand_HandleServer index_example 1 ''ALICE'') 1) = ''ALICE'' \<and>
   db (NickCommand_HandleServer index_example 1 ''ALICE'') =
     [(''bob'', ''bob!bob@host''), (''ALICE'', ''ALICE!alice@host'')]"
  by code_simp

subsection \<open>LIST hides private channels from clients that are not operators\<close>




subsection \<open>NAMES without arguments\<close>

text \<open>
  C1. The handler of NAMES tests the length of the channel table where the length of the
  argument list is meant. A NAMES command without channel names therefore sends nothing,
  in any state: with an empty table the first loop has nothing to visit, and otherwise
  the second loop runs over no names. In the example \<open>alice\<close> is a member of two
  channels and gets no names reply. With an empty table a NAMES command that names a
  channel is not answered either, not even with ERR_NOSUCHCHANNEL.
\<close>

theorem names_sends_nothing:
  "phase (client_at channel_example 1) = Normal \<and>
   channels (client_at channel_example 1) = [10, 11] \<and>
   1 \<in> set (members (channel_at channel_example 10)) \<and>
   NamesCommand_HandleServer s c [] = s \<and>
   outq (NamesCommand_HandleServer channel_example 1 []) = outq channel_example \<and>
   server_channels index_example = [] \<and>
   outq (NamesCommand_HandleServer index_example 1 [''#nope'']) = outq index_example"
proof -
  have g: "\<And>s c. NamesCommand_HandleServer s c [] = s"
    by (simp add: NamesCommand_HandleServer_def)
  have e: "phase (client_at channel_example 1) = Normal \<and>
   channels (client_at channel_example 1) = [10, 11] \<and>
   1 \<in> set (members (channel_at channel_example 10)) \<and>
   server_channels index_example = [] \<and>
   outq (NamesCommand_HandleServer index_example 1 [''#nope'']) = outq index_example"
    by code_simp
  from g e show ?thesis by simp
qed

subsection \<open>JOIN 0 parts every channel of the client\<close>

text \<open>
  C9. JOIN with the zero flag calls \<open>Part\<close> on every channel of the client with the
  client's nickname as the message, and nothing else: neither \<open>NewChannel\<close> nor
  \<open>Channel.Join\<close> is reached. Afterwards the client has no channel, it is a member of
  none of the channels it was in, everything sent is a PART of this client carrying its
  nickname (no error numeric), and the channel table has gained no entry.
\<close>

theorem join_zero_parts_all:
  "JoinCommand_HandleServer newChannel join s c True chans =
     fold (\<lambda>ch s'. Channel_Part s' ch c (nick (client_at s c))) (channels (client_at s c)) s \<and>
   channels (client_at (JoinCommand_HandleServer newChannel join s c True chans) c) = [] \<and>
   (\<forall>ch \<in> set (channels (client_at s c)).
      c \<notin> set (members (channel_at (JoinCommand_HandleServer newChannel join s c True chans) ch))) \<and>
   outq (JoinCommand_HandleServer newChannel join s c True chans) =
     outq s @
     concat (map (\<lambda>ch. map (\<lambda>m. (m, RplPart c ch (nick (client_at s c))))
        (removeAll c (members (channel_at s ch)))) (channels (client_at s c))) \<and>
   set (server_channels (JoinCommand_HandleServer newChannel join s c True chans)) \<subseteq>
     set (server_channels s)"
proof -
  have e: "JoinCommand_HandleServer newChannel join s c True chans =
     fold (\<lambda>ch s'. Channel_Part s' ch c (nick (client_at s c))) (channels (client_at s c)) s"
    by (simp add: JoinCommand_HandleServer_def part_loop_reason)
  show ?thesis
    unfolding e
    by (simp add: part_loop_channels part_loop_members part_loop_outq part_loop_table)
qed

theorem join_zero_parts_all_witness:
  "channels (client_at channel_example 1) = [10, 11] \<and>
   channels (client_at (JoinCommand_HandleServer (\<lambda>s n. (s, 0)) (\<lambda>s ch c k. s)
      channel_example 1 True []) 1) = [] \<and>
   1 \<notin> set (members (channel_at (JoinCommand_HandleServer (\<lambda>s n. (s, 0)) (\<lambda>s ch c k. s)
      channel_example 1 True []) 10)) \<and>
   1 \<notin> set (members (channel_at (JoinCommand_HandleServer (\<lambda>s n. (s, 0)) (\<lambda>s ch c k. s)
      channel_example 1 True []) 11)) \<and>
   outq (JoinCommand_HandleServer (\<lambda>s n. (s, 0)) (\<lambda>s ch c k. s) channel_example 1 True []) =
     [(2, RplPart 1 10 ''alice'')] \<and>
   server_channels (JoinCommand_HandleServer (\<lambda>s n. (s, 0)) (\<lambda>s ch c k. s)
      channel_example 1 True []) = [(''#pub'', 10)]"
proof -
  note t = join_zero_parts_all [of "\<lambda>s n. (s, 0)" "\<lambda>s ch c k. s" channel_example 1 "[]"]
  have chs: "channels (client_at channel_example 1) = [10, 11]" by code_simp
  from t have a: "channels (client_at (JoinCommand_HandleServer (\<lambda>s n. (s, 0)) (\<lambda>s ch c k. s)
      channel_example 1 True []) 1) = []"
    by blast
  from t have b: "\<forall>ch \<in> set (channels (client_at channel_example 1)).
      1 \<notin> set (members (channel_at (JoinCommand_HandleServer (\<lambda>s n. (s, 0)) (\<lambda>s ch c k. s)
        channel_example 1 True []) ch))"
    by blast
  have o: "outq channel_example @
     concat (map (\<lambda>ch. map (\<lambda>m. (m, RplPart 1 ch (nick (client_at channel_example 1))))
        (removeAll 1 (members (channel_at channel_example ch))))
          (channels (client_at channel_example 1))) = [(2, RplPart 1 10 ''alice'')]"
    by code_simp
  from t have c: "outq (JoinCommand_HandleServer (\<lambda>s n. (s, 0)) (\<lambda>s ch c k. s)
      channel_example 1 True []) = [(2, RplPart 1 10 ''alice'')]"
    unfolding o [symmetric] by blast
  have d: "server_channels (JoinCommand_HandleServer (\<lambda>s n. (s, 0)) (\<lambda>s ch c k. s)
      channel_example 1 True []) = [(''#pub'', 10)]"
    by code_simp
  from chs a b c d show ?thesis by simp
qed

end
